theory Spec2Isabelle
  imports Complex_Main "HOL-Library.Sublist"
begin

section \<open>Python values used by the converter\<close>

text \<open>
  The converter \<^verbatim>\<open>scripts/convert_voc_to_yolo.py\<close> computes with Python integers
  (unbounded, modelled as \<open>int\<close>), Python floats (IEEE binary64) and strings.
  Every exception the interpreter can raise from the content of the program's inputs
  is a value of \<open>py_error\<close>; a computation that may raise returns \<open>py_error + 'a\<close>.
\<close>

datatype py_error =
    ParseError | AttributeError | TypeError | ValueError
  | ZeroDivisionError | OverflowError
  | FileNotFoundError | NotADirectoryError | IsADirectoryError
  | FileExistsError | SameFileError

definition bind_result :: "py_error + 'a \<Rightarrow> ('a \<Rightarrow> py_error + 'b) \<Rightarrow> py_error + 'b" where
  "bind_result r f = (case r of Inl err \<Rightarrow> Inl err | Inr v \<Rightarrow> f v)"

subsection \<open>Binary64 floats\<close>

text \<open>
  A finite float is its sign (\<open>True\<close> for negative), its integer significand \<open>m\<close> and
  its exponent \<open>e\<close>, with value \<open>m * 2 ^ e\<close>. The results of the operations are in
  the canonical form of the format: \<open>2 ^ 52 \<le> m < 2 ^ 53\<close> and \<open>- 1074 \<le> e \<le> 971\<close>
  for a normal number, \<open>m < 2 ^ 52\<close> and \<open>e = - 1074\<close> for a subnormal number or zero.
\<close>

datatype pyfloat = Finite bool int int | Infinity bool | NaN

text \<open>
  Rounding the positive rational \<open>n / d * 2 ^ e\<close> to the nearest float, ties to the
  even significand. \<open>scale_down\<close> raises the exponent until the significand is below
  \<open>2 ^ 53\<close> and the exponent at least \<open>- 1074\<close>; \<open>scale_up\<close> lowers it until the
  significand reaches \<open>2 ^ 52\<close> or the exponent reaches \<open>- 1074\<close>.
\<close>

function scale_down :: "int \<Rightarrow> int \<Rightarrow> int \<Rightarrow> int \<times> int \<times> int" where
  "scale_down n d e =
     (if 0 < d \<and> (9007199254740992 * d \<le> n \<or> e < - 1074)
      then scale_down n (2 * d) (e + 1) else (n, d, e))"
  by pat_completeness auto
termination
  by (relation "measure (\<lambda>(n, d, e). nat (n + 1 - 9007199254740992 * d) + nat (- 1074 - e))")
    auto

function scale_up :: "int \<Rightarrow> int \<Rightarrow> int \<Rightarrow> int \<times> int \<times> int" where
  "scale_up n d e =
     (if n < 4503599627370496 * d \<and> - 1074 < e
      then scale_up (2 * n) d (e - 1) else (n, d, e))"
  by pat_completeness auto
termination
  by (relation "measure (\<lambda>(n, d, e). nat (e + 1074))") auto

declare scale_down.simps [simp del] scale_up.simps [simp del]

definition round_half_even :: "int \<Rightarrow> int \<Rightarrow> int" where
  "round_half_even n d =
     (let q = n div d; r = n mod d
      in if 2 * r < d then q else if d < 2 * r then q + 1
         else if even q then q else q + 1)"

definition round64 :: "bool \<Rightarrow> int \<Rightarrow> int \<Rightarrow> int \<Rightarrow> pyfloat" where
  "round64 s n d e0 =
     (case scale_down n d e0 of (n1, d1, e1) \<Rightarrow>
        (case scale_up n1 d1 e1 of (n2, d2, e2) \<Rightarrow>
           (let m = round_half_even n2 d2;
                m' = (if m = 9007199254740992 then 4503599627370496 else m);
                e' = (if m = 9007199254740992 then e2 + 1 else e2)
            in if 971 < e' then Infinity s else Finite s m' e')))"

definition zero64 :: "bool \<Rightarrow> pyfloat" where
  "zero64 s = Finite s 0 (- 1074)"

text \<open>\<open>float(text)\<close> for a decimal text of value \<open>p / q\<close> (\<open>q > 0\<close>): correctly rounded.\<close>

definition float_of_ratio :: "int \<Rightarrow> int \<Rightarrow> pyfloat" where
  "float_of_ratio p q = (if p = 0 then zero64 False else round64 (p < 0) \<bar>p\<bar> q 0)"

text \<open>
  The conversion of an \<open>int\<close> operand of a float operation: correctly rounded,
  \<^verbatim>\<open>OverflowError: int too large to convert to float\<close> beyond the range.
\<close>

definition float_of_int :: "int \<Rightarrow> py_error + pyfloat" where
  "float_of_int n =
     (case float_of_ratio n 1 of
        Infinity s \<Rightarrow> Inl OverflowError
      | f \<Rightarrow> Inr f)"

definition signed :: "bool \<Rightarrow> int \<Rightarrow> int" where
  "signed s m = (if s then - m else m)"

fun fneg :: "pyfloat \<Rightarrow> pyfloat" where
  "fneg (Finite s m e) = Finite (\<not> s) m e"
| "fneg (Infinity s) = Infinity (\<not> s)"
| "fneg NaN = NaN"

fun fadd :: "pyfloat \<Rightarrow> pyfloat \<Rightarrow> pyfloat" where
  "fadd (Finite s1 m1 e1) (Finite s2 m2 e2) =
     (let e = min e1 e2;
          t = signed s1 m1 * 2 ^ nat (e1 - e) + signed s2 m2 * 2 ^ nat (e2 - e)
      in if t = 0 then zero64 (s1 \<and> s2) else round64 (t < 0) \<bar>t\<bar> 1 e)"
| "fadd (Finite s1 m1 e1) (Infinity s2) = Infinity s2"
| "fadd (Infinity s1) (Finite s2 m2 e2) = Infinity s1"
| "fadd (Infinity s1) (Infinity s2) = (if s1 = s2 then Infinity s1 else NaN)"
| "fadd NaN y = NaN"
| "fadd x NaN = NaN"

definition fsub :: "pyfloat \<Rightarrow> pyfloat \<Rightarrow> pyfloat" where
  "fsub x y = fadd x (fneg y)"

fun fmul :: "pyfloat \<Rightarrow> pyfloat \<Rightarrow> pyfloat" where
  "fmul (Finite s1 m1 e1) (Finite s2 m2 e2) =
     (if m1 = 0 \<or> m2 = 0 then zero64 (s1 \<noteq> s2)
      else round64 (s1 \<noteq> s2) (m1 * m2) 1 (e1 + e2))"
| "fmul (Finite s1 m1 e1) (Infinity s2) = (if m1 = 0 then NaN else Infinity (s1 \<noteq> s2))"
| "fmul (Infinity s1) (Finite s2 m2 e2) = (if m2 = 0 then NaN else Infinity (s1 \<noteq> s2))"
| "fmul (Infinity s1) (Infinity s2) = Infinity (s1 \<noteq> s2)"
| "fmul NaN y = NaN"
| "fmul x NaN = NaN"

text \<open>
  Python's \<open>/\<close> on floats raises \<^verbatim>\<open>ZeroDivisionError\<close> for a zero divisor of either
  sign, whatever the dividend; otherwise it is the IEEE division.
\<close>

fun fdiv :: "pyfloat \<Rightarrow> pyfloat \<Rightarrow> py_error + pyfloat" where
  "fdiv (Finite s1 m1 e1) (Finite s2 m2 e2) =
     (if m2 = 0 then Inl ZeroDivisionError
      else if m1 = 0 then Inr (zero64 (s1 \<noteq> s2))
      else Inr (round64 (s1 \<noteq> s2) m1 m2 (e1 - e2)))"
| "fdiv (Infinity s1) (Finite s2 m2 e2) =
     (if m2 = 0 then Inl ZeroDivisionError else Inr (Infinity (s1 \<noteq> s2)))"
| "fdiv NaN (Finite s2 m2 e2) = (if m2 = 0 then Inl ZeroDivisionError else Inr NaN)"
| "fdiv (Finite s1 m1 e1) (Infinity s2) = Inr (zero64 (s1 \<noteq> s2))"
| "fdiv (Infinity s1) (Infinity s2) = Inr NaN"
| "fdiv NaN (Infinity s2) = Inr NaN"
| "fdiv x NaN = Inr NaN"

text \<open>\<open>x / n\<close> for a float \<open>x\<close> and an int \<open>n\<close>: the int is converted first.\<close>

definition fdiv_int :: "pyfloat \<Rightarrow> int \<Rightarrow> py_error + pyfloat" where
  "fdiv_int x n = bind_result (float_of_int n) (fdiv x)"

text \<open>\<open>int(x)\<close> truncates toward zero and raises on a non-finite float.\<close>

fun int_of_float :: "pyfloat \<Rightarrow> py_error + int" where
  "int_of_float (Finite s m e) =
     Inr (signed s (if 0 \<le> e then m * 2 ^ nat e else m div 2 ^ nat (- e)))"
| "int_of_float (Infinity s) = Inl OverflowError"
| "int_of_float NaN = Inl ValueError"

definition one64 :: pyfloat where
  "one64 = Finite False 4503599627370496 (- 52)"

definition two64 :: pyfloat where
  "two64 = Finite False 4503599627370496 (- 51)"

subsection \<open>Formatting\<close>

definition digit_char :: "nat \<Rightarrow> char" where
  "digit_char d = ''0123456789'' ! (d mod 10)"

function show_nat :: "nat \<Rightarrow> string" where
  "show_nat n = (if n < 10 then [digit_char n] else show_nat (n div 10) @ [digit_char n])"
  by pat_completeness auto
termination
  by (relation "measure id") auto

declare show_nat.simps [simp del]

text \<open>\<open>str(i)\<close> for an int, as an f-string field without format specification prints it.\<close>

definition show_int :: "int \<Rightarrow> string" where
  "show_int i = (if i < 0 then CHR ''-'' # show_nat (nat (- i)) else show_nat (nat i))"

definition digits6 :: "nat \<Rightarrow> string" where
  "digits6 k = map (\<lambda>p. digit_char (k div 10 ^ p)) [5, 4, 3, 2, 1, 0]"

text \<open>
  The format specification \<^verbatim>\<open>.6f\<close>: the exact value of the float is rounded to six
  decimals, ties to even; the sign of a negative float is kept also when all digits
  are zero; a non-finite float prints as \<^verbatim>\<open>nan\<close>, \<^verbatim>\<open>inf\<close> or \<^verbatim>\<open>-inf\<close>.
\<close>

fun format_6f :: "pyfloat \<Rightarrow> string" where
  "format_6f (Finite s m e) =
     (let k = nat (if 0 \<le> e then m * 1000000 * 2 ^ nat e
                   else round_half_even (m * 1000000) (2 ^ nat (- e)))
      in (if s then ''-'' else '''') @ show_nat (k div 1000000) @ ''.'' @ digits6 (k mod 1000000))"
| "format_6f (Infinity s) = (if s then ''-inf'' else ''inf'')"
| "format_6f NaN = ''nan''"

section \<open>Annotation files\<close>

text \<open>
  An annotation file as \<^verbatim>\<open>xml.etree.ElementTree\<close> presents it to the parser. A text
  field that the program converts with \<open>int\<close> or \<open>float\<close> is one of: the element is
  absent (\<open>find\<close> returns \<open>None\<close>, so \<open>.text\<close> raises \<^verbatim>\<open>AttributeError\<close>); the element
  has no text (\<open>.text\<close> is \<open>None\<close>, the conversion raises \<^verbatim>\<open>TypeError\<close>); the text is
  not a number (\<^verbatim>\<open>ValueError\<close>); or the conversion returns a value.
\<close>

datatype 'a text_field = NoNode | NoText | BadText | Value 'a

datatype name_node = NameMissing | NameNoText | NameText string

record bndbox =
  xmin :: "pyfloat text_field"
  ymin :: "pyfloat text_field"
  xmax :: "pyfloat text_field"
  ymax :: "pyfloat text_field"

record voc_object =
  obj_name :: name_node
  obj_bndbox :: "bndbox option"

record xml_doc =
  size_width :: "int text_field"
  size_height :: "int text_field"
  objects :: "voc_object list"

type_synonym box = "int \<times> pyfloat \<times> pyfloat \<times> pyfloat \<times> pyfloat"

definition class_mapping :: "string \<rightharpoonup> int" where
  "class_mapping = map_of [(''D00'', 0), (''D10'', 1), (''D20'', 2), (''D40'', 3)]"

definition convert_text :: "'a text_field \<Rightarrow> py_error + 'a" where
  "convert_text f =
     (case f of NoNode \<Rightarrow> Inl AttributeError | NoText \<Rightarrow> Inl TypeError
      | BadText \<Rightarrow> Inl ValueError | Value v \<Rightarrow> Inr v)"

text \<open>\<open>float(bbox.find(tag).text)\<close>: \<open>bbox\<close> itself is \<open>None\<close> when the object has no \<open>bndbox\<close>.\<close>

definition bbox_float :: "bndbox option \<Rightarrow> (bndbox \<Rightarrow> pyfloat text_field) \<Rightarrow> py_error + pyfloat" where
  "bbox_float bbox tag =
     (case bbox of None \<Rightarrow> Inl AttributeError | Some b \<Rightarrow> convert_text (tag b))"

text \<open>
  The body of the loop over the objects, lines 29 to 47: \<open>None\<close> is the \<open>continue\<close> of
  an object whose name is not a key of the mapping (a name element without text gives
  \<open>None\<close>, which is not a key either), \<open>Some\<close> is the box appended.
\<close>

definition convert_object :: "int \<Rightarrow> int \<Rightarrow> voc_object \<Rightarrow> py_error + box option" where
  "convert_object img_width img_height obj =
     (case obj_name obj of
        NameMissing \<Rightarrow> Inl AttributeError
      | NameNoText \<Rightarrow> Inr None
      | NameText class_name \<Rightarrow>
          (case class_mapping class_name of
             None \<Rightarrow> Inr None
           | Some class_id \<Rightarrow>
               bind_result (bbox_float (obj_bndbox obj) xmin) (\<lambda>x0.
               bind_result (bbox_float (obj_bndbox obj) ymin) (\<lambda>y0.
               bind_result (bbox_float (obj_bndbox obj) xmax) (\<lambda>x1.
               bind_result (bbox_float (obj_bndbox obj) ymax) (\<lambda>y1.
               bind_result (bind_result (fdiv (fadd x0 x1) two64) (\<lambda>h. fdiv_int h img_width))
                 (\<lambda>x_center.
               bind_result (bind_result (fdiv (fadd y0 y1) two64) (\<lambda>h. fdiv_int h img_height))
                 (\<lambda>y_center.
               bind_result (fdiv_int (fsub x1 x0) img_width) (\<lambda>width.
               bind_result (fdiv_int (fsub y1 y0) img_height) (\<lambda>height.
               Inr (Some (class_id, x_center, y_center, width, height))))))))))))"

fun parse_objects :: "int \<Rightarrow> int \<Rightarrow> box list \<Rightarrow> voc_object list \<Rightarrow> py_error + box list" where
  "parse_objects img_width img_height boxes [] = Inr boxes"
| "parse_objects img_width img_height boxes (obj # objs) =
     (case convert_object img_width img_height obj of
        Inl err \<Rightarrow> Inl err
      | Inr None \<Rightarrow> parse_objects img_width img_height boxes objs
      | Inr (Some b) \<Rightarrow> parse_objects img_width img_height (boxes @ [b]) objs)"

definition parse_document :: "xml_doc \<Rightarrow> py_error + box list" where
  "parse_document doc =
     bind_result (convert_text (size_width doc)) (\<lambda>img_width.
     bind_result (convert_text (size_height doc)) (\<lambda>img_height.
     parse_objects img_width img_height [] (objects doc)))"

section \<open>The file system\<close>

text \<open>
  A path is the list of its components; \<open>os.path.join\<close> appends components. A file
  holds either an XML document or other bytes, which \<open>ET.parse\<close> rejects (an image, a
  label file, broken XML). The tree is modelled as the program finds it, in any
  shape, and a system call raises where the shape of the tree makes Python raise: a
  missing component or a regular file on the way to a path that is written, a
  directory where a file is read or written, a regular file where a directory is to be
  created. Failures that the tree does not show (permissions, a full disk) and the
  console output of the program are not modelled.
\<close>

type_synonym path = "string list"

datatype content = Annotation xml_doc | Other string

datatype node = Dir | File content

type_synonym fs = "path \<rightharpoonup> node"

definition isdir :: "fs \<Rightarrow> path \<Rightarrow> bool" where
  "isdir files p = (files p = Some Dir)"

definition exists_path :: "fs \<Rightarrow> path \<Rightarrow> bool" where
  "exists_path files p = (files p \<noteq> None)"

definition ET_parse :: "fs \<Rightarrow> path \<Rightarrow> py_error + xml_doc" where
  "ET_parse files p =
     (case files p of
        None \<Rightarrow> Inl FileNotFoundError
      | Some Dir \<Rightarrow> Inl IsADirectoryError
      | Some (File (Other s)) \<Rightarrow> Inl ParseError
      | Some (File (Annotation doc)) \<Rightarrow> Inr doc)"

definition parse_voc_annotation :: "fs \<Rightarrow> path \<Rightarrow> py_error + box list" where
  "parse_voc_annotation files xml_file = bind_result (ET_parse files xml_file) parse_document"

section \<open>The File-Set Processor\<close>

definition basename :: "path \<Rightarrow> string" where
  "basename p = (if p = [] then [] else last p)"

text \<open>
  \<open>os.path.splitext\<close> on a name without separator: the extension starts at the last
  dot, unless only dots precede it.
\<close>

definition splitext :: "string \<Rightarrow> string \<times> string" where
  "splitext name =
     (let rev_ext = takeWhile (\<lambda>c. c \<noteq> CHR ''.'') (rev name);
          rev_rest = dropWhile (\<lambda>c. c \<noteq> CHR ''.'') (rev name)
      in case rev_rest of
           [] \<Rightarrow> (name, [])
         | dot # rev_stem \<Rightarrow>
             if list_ex (\<lambda>c. c \<noteq> CHR ''.'') rev_stem
             then (rev rev_stem, dot # rev rev_ext) else (name, []))"

definition image_extensions :: "string list" where
  "image_extensions = [''.jpg'', ''.jpeg'', ''.png'']"

text \<open>The loop of lines 136 to 141: the first extension whose path exists.\<close>

fun find_image :: "fs \<Rightarrow> path \<Rightarrow> string \<Rightarrow> string list \<Rightarrow> path option" where
  "find_image files images_dir name_without_ext [] = None"
| "find_image files images_dir name_without_ext (ext # exts) =
     (let img_path = images_dir @ [name_without_ext @ ext]
      in if exists_path files img_path then Some img_path
         else find_image files images_dir name_without_ext exts)"

text \<open>
  Opening a path for writing. Every directory on the way to it, below the working
  directory, must exist: the first component that is missing gives
  \<^verbatim>\<open>FileNotFoundError\<close>, the first that is a regular file \<^verbatim>\<open>NotADirectoryError\<close>;
  the path itself must not be a directory.
\<close>

definition ancestors :: "path \<Rightarrow> path list" where
  "ancestors p = tl (butlast (prefixes p))"

fun first_obstacle :: "fs \<Rightarrow> path list \<Rightarrow> py_error option" where
  "first_obstacle files [] = None"
| "first_obstacle files (q # qs) =
     (case files q of
        None \<Rightarrow> Some FileNotFoundError
      | Some Dir \<Rightarrow> first_obstacle files qs
      | Some (File c) \<Rightarrow> Some NotADirectoryError)"

definition write_file :: "fs \<Rightarrow> path \<Rightarrow> content \<Rightarrow> py_error + fs" where
  "write_file files p c =
     (case first_obstacle files (ancestors p) of
        Some err \<Rightarrow> Inl err
      | None \<Rightarrow>
          (case files p of
             Some Dir \<Rightarrow> Inl IsADirectoryError
           | Some (File old) \<Rightarrow> Inr (files(p \<mapsto> File c))
           | None \<Rightarrow> Inr (files(p \<mapsto> File c))))"

text \<open>
  \<open>shutil.copy(src, dst)\<close>: a destination that is a directory stands for the file of
  the source's name inside it; copying a file onto itself raises; the source is
  opened for reading, then the destination for writing.
\<close>

definition copy :: "fs \<Rightarrow> path \<Rightarrow> path \<Rightarrow> py_error + fs" where
  "copy files src dst =
     (let target = (if isdir files dst then dst @ [basename src] else dst)
      in if target = src \<and> exists_path files src then Inl SameFileError
         else
           (case files src of
              None \<Rightarrow> Inl FileNotFoundError
            | Some Dir \<Rightarrow> Inl IsADirectoryError
            | Some (File c) \<Rightarrow> write_file files target c))"

definition format_box :: "box \<Rightarrow> string" where
  "format_box b =
     (case b of (class_id, x_center, y_center, width, height) \<Rightarrow>
        show_int class_id @ '' '' @ format_6f x_center @ '' '' @ format_6f y_center @ '' ''
          @ format_6f width @ '' '' @ format_6f height @ [CHR 0x0A])"

text \<open>The text written by the loop of lines 163 and 164.\<close>

fun write_boxes :: "string \<Rightarrow> box list \<Rightarrow> string" where
  "write_boxes written [] = written"
| "write_boxes written (b # boxes) = write_boxes (written @ format_box b) boxes"

fun process_set :: "fs \<Rightarrow> path list \<Rightarrow> path \<Rightarrow> path \<Rightarrow> py_error + fs" where
  "process_set files [] images_dir output_dir = Inr files"
| "process_set files (xml_file # xml_files) images_dir output_dir =
     (let base_name = basename xml_file;
          name_without_ext = fst (splitext base_name)
      in case find_image files images_dir name_without_ext image_extensions of
           None \<Rightarrow> process_set files xml_files images_dir output_dir
         | Some image_path \<Rightarrow>
             (case parse_voc_annotation files xml_file of
                Inl err \<Rightarrow> Inl err
              | Inr boxes \<Rightarrow>
                  if boxes = [] then process_set files xml_files images_dir output_dir
                  else
                    (case copy files image_path (output_dir @ [basename image_path]) of
                       Inl err \<Rightarrow> Inl err
                     | Inr copied \<Rightarrow>
                         (case write_file copied (output_dir @ [name_without_ext @ ''.txt''])
                                 (Other (write_boxes [] boxes)) of
                            Inl err \<Rightarrow> Inl err
                          | Inr written \<Rightarrow>
                              process_set written xml_files images_dir output_dir))))"

section \<open>Dataset discovery and orchestration\<close>

text \<open>
  What the program obtains from its environment and cannot compute from the tree
  alone: the order in which \<open>os.listdir\<close> and \<open>glob.glob\<close> enumerate, and the
  permutation \<open>random.shuffle\<close> draws from the generator state \<open>'r\<close>.
\<close>

record 'r environment =
  listdir :: "fs \<Rightarrow> path \<Rightarrow> string list"
  glob_xml :: "fs \<Rightarrow> path \<Rightarrow> path list"
  shuffle :: "'r \<Rightarrow> path list \<Rightarrow> path list \<times> 'r"

text \<open>
  \<open>os.makedirs(p, exist_ok=True)\<close> creates every missing directory on the way to \<open>p\<close>,
  from the working directory down, and \<open>p\<close> itself. A component that is a regular file
  makes it raise: \<^verbatim>\<open>NotADirectoryError\<close> if it lies above \<open>p\<close>, \<^verbatim>\<open>FileExistsError\<close> if it
  is \<open>p\<close>.
\<close>

fun makedirs_from :: "fs \<Rightarrow> path list \<Rightarrow> path \<Rightarrow> py_error + fs" where
  "makedirs_from files [] p = Inr files"
| "makedirs_from files (q # qs) p =
     (case files q of
        None \<Rightarrow> makedirs_from (files(q \<mapsto> Dir)) qs p
      | Some Dir \<Rightarrow> makedirs_from files qs p
      | Some (File c) \<Rightarrow> Inl (if q = p then FileExistsError else NotADirectoryError))"

definition makedirs :: "fs \<Rightarrow> path \<Rightarrow> py_error + fs" where
  "makedirs files p = makedirs_from files (tl (prefixes p)) p"

definition annotation_dirnames :: "string list" where
  "annotation_dirnames = [''annotations'', ''annotation'', ''Annotations'', ''xmls'']"

text \<open>The loop of lines 90 to 95.\<close>

fun find_annotation_dir :: "fs \<Rightarrow> path \<Rightarrow> string list \<Rightarrow> path option" where
  "find_annotation_dir files train_folder [] = None"
| "find_annotation_dir files train_folder (anno_dirname # names) =
     (let potential_dir = train_folder @ [anno_dirname]
      in if isdir files potential_dir then Some potential_dir
         else find_annotation_dir files train_folder names)"

text \<open>Python slices \<open>xs[:k]\<close> and \<open>xs[k:]\<close>: a negative \<open>k\<close> counts from the end.\<close>

definition slice_index :: "'a list \<Rightarrow> int \<Rightarrow> nat" where
  "slice_index xs k =
     (let n = int (length xs) in nat (if k < 0 then max (n + k) 0 else min k n))"

definition slice_to :: "'a list \<Rightarrow> int \<Rightarrow> 'a list" where
  "slice_to xs k = take (slice_index xs k) xs"

definition slice_from :: "'a list \<Rightarrow> int \<Rightarrow> 'a list" where
  "slice_from xs k = drop (slice_index xs k) xs"

text \<open>Line 116: \<open>int(len(xml_files) * (1 - val_split))\<close>.\<close>

definition train_count_of :: "nat \<Rightarrow> pyfloat \<Rightarrow> py_error + int" where
  "train_count_of n val_split =
     bind_result (float_of_int (int n)) (\<lambda>len. int_of_float (fmul len (fsub one64 val_split)))"

text \<open>
  The body of the loop over the dataset subdirectories, lines 70 to 126; every
  \<open>continue\<close> returns the tree reached so far, and an error of \<open>os.makedirs\<close> at lines
  76 and 77 leaves the loop before anything else is looked at.
\<close>

definition convert_subdir ::
  "'r environment \<Rightarrow> path \<Rightarrow> path \<Rightarrow> pyfloat \<Rightarrow> fs \<times> 'r \<Rightarrow> string \<Rightarrow> py_error + fs \<times> 'r" where
  "convert_subdir env voc_dir model_dir val_split state subdir =
     (case state of (files0, rng) \<Rightarrow>
     (let train_dir = model_dir @ [subdir, ''train''];
          val_dir = model_dir @ [subdir, ''val'']
      in bind_result (makedirs files0 train_dir) (\<lambda>files1.
         bind_result (makedirs files1 val_dir) (\<lambda>files.
     (let train_folder = voc_dir @ [subdir, ''train'']
      in if \<not> isdir files train_folder then Inr (files, rng)
         else
           (let images_dir = train_folder @ [''images''];
                annotation_dir = find_annotation_dir files train_folder annotation_dirnames
            in case annotation_dir of
                 None \<Rightarrow> Inr (files, rng)
               | Some anno_dir \<Rightarrow>
                   if \<not> isdir files images_dir then Inr (files, rng)
                   else
                     (let xml_files = glob_xml env files anno_dir
                      in if xml_files = [] then Inr (files, rng)
                         else
                           (case shuffle env rng xml_files of (shuffled, rng') \<Rightarrow>
                              bind_result (train_count_of (length shuffled) val_split)
                                (\<lambda>train_count.
                                   let train_files = slice_to shuffled train_count;
                                       val_files = slice_from shuffled train_count
                                   in bind_result
                                        (process_set files train_files images_dir train_dir)
                                        (\<lambda>files_t.
                                           bind_result
                                             (process_set files_t val_files images_dir val_dir)
                                             (\<lambda>files2. Inr (files2, rng'))))))))))))"

fun convert_subdirs ::
  "'r environment \<Rightarrow> path \<Rightarrow> path \<Rightarrow> pyfloat \<Rightarrow> fs \<times> 'r \<Rightarrow> string list \<Rightarrow> py_error + fs \<times> 'r" where
  "convert_subdirs env voc_dir model_dir val_split state [] = Inr state"
| "convert_subdirs env voc_dir model_dir val_split state (subdir # subdirs) =
     (case convert_subdir env voc_dir model_dir val_split state subdir of
        Inl err \<Rightarrow> Inl err
      | Inr state' \<Rightarrow> convert_subdirs env voc_dir model_dir val_split state' subdirs)"

definition convert_to_yolo ::
  "'r environment \<Rightarrow> path \<Rightarrow> path \<Rightarrow> pyfloat \<Rightarrow> fs \<times> 'r \<Rightarrow> py_error + fs \<times> 'r" where
  "convert_to_yolo env voc_dir model_dir val_split state =
     (case fst state voc_dir of
        None \<Rightarrow> Inl FileNotFoundError
      | Some (File c) \<Rightarrow> Inl NotADirectoryError
      | Some Dir \<Rightarrow>
          (let subdirs = filter (\<lambda>d. isdir (fst state) (voc_dir @ [d]))
                           (listdir env (fst state) voc_dir)
           in if subdirs = [] then Inr state
              else convert_subdirs env voc_dir model_dir val_split state subdirs))"

section \<open>Notions of the specification\<close>

text \<open>The class identifier the mapping gives to an object, if any.\<close>

definition object_class_id :: "voc_object \<Rightarrow> int option" where
  "object_class_id obj =
     (case obj_name obj of NameText class_name \<Rightarrow> class_mapping class_name | _ \<Rightarrow> None)"

definition retained :: "voc_object \<Rightarrow> bool" where
  "retained obj = (object_class_id obj \<noteq> None)"

text \<open>
  The formulas of the specification, in the arithmetic of the program:
  \<open>x_center = (xmin + xmax) / 2 / image_width\<close>,
  \<open>y_center = (ymin + ymax) / 2 / image_height\<close>,
  \<open>width = (xmax - xmin) / image_width\<close>, \<open>height = (ymax - ymin) / image_height\<close>.
\<close>

definition normalized_box ::
  "int \<Rightarrow> int \<Rightarrow> pyfloat \<Rightarrow> pyfloat \<Rightarrow> pyfloat \<Rightarrow> pyfloat
     \<Rightarrow> py_error + pyfloat \<times> pyfloat \<times> pyfloat \<times> pyfloat" where
  "normalized_box image_width image_height x_min y_min x_max y_max =
     bind_result (fdiv (fadd x_min x_max) two64) (\<lambda>sx.
     bind_result (fdiv_int sx image_width) (\<lambda>x_center.
     bind_result (fdiv (fadd y_min y_max) two64) (\<lambda>sy.
     bind_result (fdiv_int sy image_height) (\<lambda>y_center.
     bind_result (fdiv_int (fsub x_max x_min) image_width) (\<lambda>width.
     bind_result (fdiv_int (fsub y_max y_min) image_height) (\<lambda>height.
     Inr (x_center, y_center, width, height)))))))"

definition box_of_object :: "int \<Rightarrow> int \<Rightarrow> voc_object \<Rightarrow> box \<Rightarrow> bool" where
  "box_of_object image_width image_height obj b =
     (case obj_bndbox obj of
        None \<Rightarrow> False
      | Some bb \<Rightarrow>
          (case xmin bb of Value x_min \<Rightarrow>
             (case ymin bb of Value y_min \<Rightarrow>
                (case xmax bb of Value x_max \<Rightarrow>
                   (case ymax bb of Value y_max \<Rightarrow>
                      object_class_id obj = Some (fst b) \<and>
                      normalized_box image_width image_height x_min y_min x_max y_max
                        = Inr (snd b)
                    | _ \<Rightarrow> False)
                 | _ \<Rightarrow> False)
              | _ \<Rightarrow> False)
           | _ \<Rightarrow> False))"

text \<open>
  The example of the specification: an image of 640 by 480 pixels with one object,
  of the given class, in the box \<open>(100, 100, 300, 200)\<close>.
\<close>

definition example_object :: "string \<Rightarrow> voc_object" where
  "example_object class_name =
     \<lparr>obj_name = NameText class_name,
      obj_bndbox = Some \<lparr>xmin = Value (float_of_ratio 100 1), ymin = Value (float_of_ratio 100 1),
                         xmax = Value (float_of_ratio 300 1), ymax = Value (float_of_ratio 200 1)\<rparr>\<rparr>"

definition example_doc :: "string \<Rightarrow> xml_doc" where
  "example_doc class_name =
     \<lparr>size_width = Value 640, size_height = Value 480, objects = [example_object class_name]\<rparr>"

definition example_box :: "int \<Rightarrow> box" where
  "example_box class_id =
     (class_id, Finite False 5629499534213120 (- 54), Finite False 5629499534213120 (- 54),
      Finite False 5629499534213120 (- 54), Finite False 7505999378950827 (- 55))"

text \<open>The float \<open>len(xml_files) * (1 - val_split)\<close> that line 116 truncates.\<close>

definition split_product :: "nat \<Rightarrow> pyfloat \<Rightarrow> py_error + pyfloat" where
  "split_product n val_split =
     bind_result (float_of_int (int n)) (\<lambda>len. Inr (fmul len (fsub one64 val_split)))"

fun is_finite :: "pyfloat \<Rightarrow> bool" where
  "is_finite (Finite s m e) = True"
| "is_finite (Infinity s) = False"
| "is_finite NaN = False"

text \<open>The rational number a finite float stands for.\<close>

fun value_of :: "pyfloat \<Rightarrow> rat" where
  "value_of (Finite s m e) =
     of_int (signed s m) * (if 0 \<le> e then 2 ^ nat e else 1 / 2 ^ nat (- e))"
| "value_of (Infinity s) = 0"
| "value_of NaN = 0"

text \<open>Truncation toward zero, as \<open>int\<close> does on a float.\<close>

definition truncate :: "rat \<Rightarrow> int" where
  "truncate q = (if q < 0 then - \<lfloor>- q\<rfloor> else \<lfloor>q\<rfloor>)"

text \<open>The shape of a label line.\<close>

definition is_digit :: "char \<Rightarrow> bool" where
  "is_digit c = (c \<in> set ''0123456789'')"

definition is_plain_integer :: "string \<Rightarrow> bool" where
  "is_plain_integer s =
     (let ds = (case s of [] \<Rightarrow> [] | c # cs \<Rightarrow> if c = CHR ''-'' then cs else s)
      in ds \<noteq> [] \<and> list_all is_digit ds)"

definition is_decimal6 :: "string \<Rightarrow> bool" where
  "is_decimal6 s =
     (let body = (case s of [] \<Rightarrow> [] | c # cs \<Rightarrow> if c = CHR ''-'' then cs else s);
          whole = takeWhile is_digit body;
          rest = dropWhile is_digit body
      in whole \<noteq> [] \<and>
         (case rest of [] \<Rightarrow> False
          | c # decimals \<Rightarrow> c = CHR ''.'' \<and> length decimals = 6 \<and> list_all is_digit decimals))"

text \<open>Example annotations and an example tree.\<close>

definition nan_doc :: xml_doc where
  "nan_doc =
     \<lparr>size_width = Value 640, size_height = Value 480,
      objects = [\<lparr>obj_name = NameText ''D00'',
        obj_bndbox = Some \<lparr>xmin = Value NaN, ymin = Value (float_of_ratio 100 1),
                           xmax = Value (float_of_ratio 300 1), ymax = Value (float_of_ratio 200 1)\<rparr>\<rparr>]\<rparr>"

definition unmapped_doc :: xml_doc where
  "unmapped_doc =
     \<lparr>size_width = Value 640, size_height = Value 480,
      objects = [\<lparr>obj_name = NameText ''D30'', obj_bndbox = None\<rparr>]\<rparr>"

definition mixed_doc :: xml_doc where
  "mixed_doc =
     \<lparr>size_width = Value 640, size_height = Value 480,
      objects = [example_object ''D00'', \<lparr>obj_name = NameText ''D30'', obj_bndbox = None\<rparr>,
                 example_object ''D40'']\<rparr>"

definition example_files :: fs where
  "example_files =
     [[''images'', ''a.jpg''] \<mapsto> File (Other ''JPEG''),
      [''images'', ''b.png''] \<mapsto> File (Other ''PNG''),
      [''xmls'', ''a.xml''] \<mapsto> File (Annotation (example_doc ''D00'')),
      [''xmls'', ''b.xml''] \<mapsto> File (Annotation unmapped_doc),
      [''xmls'', ''c.xml''] \<mapsto> File (Annotation (example_doc ''D00'')),
      [''xmls'', ''d.xml''] \<mapsto> File (Annotation mixed_doc)]"








section \<open>Properties\<close>

subsection \<open>Evaluation\<close>

lemmas float_eval = round64_def round_half_even_def float_of_ratio_def float_of_int_def
  fdiv_int_def bind_result_def zero64_def signed_def fsub_def one64_def two64_def Let_def
  scale_down.simps scale_up.simps

lemmas format_eval = format_box_def show_int_def digits6_def digit_char_def show_nat.simps
  round_half_even_def Let_def

lemma float_100: "float_of_ratio 100 1 = Finite False 7036874417766400 (- 46)"
  by (simp add: float_eval)

lemma float_200: "float_of_ratio 200 1 = Finite False 7036874417766400 (- 45)"
  by (simp add: float_eval)

lemma float_300: "float_of_ratio 300 1 = Finite False 5277655813324800 (- 44)"
  by (simp add: float_eval)

lemma convert_example_object:
  "class_mapping class_name = Some class_id \<Longrightarrow>
   convert_object 640 480 (example_object class_name) = Inr (Some (example_box class_id))"
  by (simp add: example_object_def example_box_def convert_object_def bbox_float_def
      convert_text_def float_100 float_200 float_300 float_eval)

lemma parse_example_doc:
  "class_mapping class_name = Some class_id \<Longrightarrow>
   parse_document (example_doc class_name) = Inr [example_box class_id]"
  by (simp add: parse_document_def example_doc_def convert_text_def bind_result_def
      convert_example_object)

lemma format_example_box:
  "format_box (example_box class_id) =
   show_int class_id @ '' 0.312500 0.312500 0.312500 0.208333'' @ [CHR 0x0A]"
  by (simp add: example_box_def format_box_def digits6_def digit_char_def show_nat.simps
      round_half_even_def Let_def)

subsection \<open>The parser\<close>

lemma convert_object_retained:
  "convert_object w h obj = Inr (Some b) \<Longrightarrow> retained obj"
  by (auto simp: convert_object_def retained_def object_class_id_def
      split: name_node.splits option.splits)

lemma convert_object_skipped:
  "convert_object w h obj = Inr None \<Longrightarrow> \<not> retained obj"
  by (auto simp: convert_object_def retained_def object_class_id_def bind_result_def
      split: name_node.splits option.splits sum.splits)

lemma convert_object_class_id:
  "convert_object w h obj = Inr (Some b) \<Longrightarrow> object_class_id obj = Some (fst b)"
  by (auto simp: convert_object_def object_class_id_def bind_result_def
      split: name_node.splits option.splits sum.splits)

lemma convert_object_formulas:
  "convert_object w h obj = Inr (Some b) \<Longrightarrow> box_of_object w h obj b"
  by (auto simp: convert_object_def object_class_id_def bind_result_def box_of_object_def
      normalized_box_def bbox_float_def convert_text_def
      split: name_node.splits option.splits sum.splits text_field.splits)

lemma parse_objects_boxes:
  "parse_objects w h acc objs = Inr boxes \<Longrightarrow>
   \<exists>new. boxes = acc @ new \<and>
     list_all2 (\<lambda>obj b. convert_object w h obj = Inr (Some b)) (filter retained objs) new"
proof (induction objs arbitrary: acc)
  case Nil
  then show ?case by simp
next
  case (Cons obj objs)
  show ?case
  proof (cases "convert_object w h obj")
    case (Inl err)
    with Cons.prems show ?thesis by simp
  next
    case (Inr r)
    show ?thesis
    proof (cases r)
      case None
      with Inr Cons.prems have "parse_objects w h acc objs = Inr boxes" by simp
      from Cons.IH [OF this] convert_object_skipped [of w h obj] Inr None
      show ?thesis by auto
    next
      case (Some b)
      with Inr Cons.prems have "parse_objects w h (acc @ [b]) objs = Inr boxes" by simp
      from Cons.IH [OF this] convert_object_retained [of w h obj b] Inr Some
      show ?thesis by auto
    qed
  qed
qed

lemma parse_document_boxes:
  assumes "parse_document doc = Inr boxes"
  shows "\<exists>w h. size_width doc = Value w \<and> size_height doc = Value h \<and>
    list_all2 (\<lambda>obj b. convert_object w h obj = Inr (Some b))
      (filter retained (objects doc)) boxes"
proof -
  from assms obtain w h where w: "size_width doc = Value w" and h: "size_height doc = Value h"
    and p: "parse_objects w h [] (objects doc) = Inr boxes"
    by (auto simp: parse_document_def bind_result_def convert_text_def
        split: sum.splits text_field.splits)
  from parse_objects_boxes [OF p] w h show ?thesis by auto
qed

lemma parse_objects_skip:
  "convert_object w h obj = Inr None \<Longrightarrow>
   parse_objects w h acc (xs @ obj # ys) = parse_objects w h acc (xs @ ys)"
  by (induction xs arbitrary: acc) (auto split: sum.splits option.splits)

lemma unmapped_is_skipped:
  "obj_name obj = NameText class_name \<Longrightarrow> class_mapping class_name = None \<Longrightarrow>
   convert_object w h obj = Inr None"
  by (simp add: convert_object_def)

text \<open>
  C1. Whenever the parser returns, its boxes are, in order, those of the retained
  objects, and the box of each retained object is given by the formulas of the
  specification, evaluated in the float arithmetic of the program. For an image of
  640 by 480 and the box (100, 100, 300, 200) of a class of the mapping, the parser
  returns one box, and its label line is the class identifier followed by
  \<open>0.312500 0.312500 0.312500 0.208333\<close>.
\<close>

theorem emitted_box_follows_formulas:
  "(parse_document doc = Inr boxes \<longrightarrow>
      (\<exists>image_width image_height.
         size_width doc = Value image_width \<and> size_height doc = Value image_height \<and>
         list_all2 (box_of_object image_width image_height)
           (filter retained (objects doc)) boxes)) \<and>
   (class_mapping class_name = Some class_id \<longrightarrow>
      (\<exists>b. parse_document (example_doc class_name) = Inr [b] \<and>
         format_box b =
           show_int class_id @ '' 0.312500 0.312500 0.312500 0.208333'' @ [CHR 0x0A]))"
proof (intro conjI impI)
  assume "parse_document doc = Inr boxes"
  from parse_document_boxes [OF this] obtain w h where
    "size_width doc = Value w" "size_height doc = Value h"
    "list_all2 (\<lambda>obj b. convert_object w h obj = Inr (Some b))
       (filter retained (objects doc)) boxes"
    by blast
  moreover from this(3) have "list_all2 (box_of_object w h) (filter retained (objects doc)) boxes"
    by (rule list_all2_mono) (rule convert_object_formulas)
  ultimately show "\<exists>image_width image_height.
         size_width doc = Value image_width \<and> size_height doc = Value image_height \<and>
         list_all2 (box_of_object image_width image_height)
           (filter retained (objects doc)) boxes"
    by blast
next
  assume "class_mapping class_name = Some class_id"
  from parse_example_doc [OF this] format_example_box [of class_id]
  show "\<exists>b. parse_document (example_doc class_name) = Inr [b] \<and>
         format_box b =
           show_int class_id @ '' 0.312500 0.312500 0.312500 0.208333'' @ [CHR 0x0A]"
    by blast
qed

theorem emitted_box_follows_formulas_witness:
  "parse_document (example_doc ''D00'') = Inr [example_box 0] \<and>
   class_mapping ''D00'' = Some 0 \<and>
   list_all2 (box_of_object 640 480) [example_object ''D00''] [example_box 0] \<and>
   (\<exists>b. parse_document (example_doc ''D00'') = Inr [b] \<and>
      format_box b = ''0 0.312500 0.312500 0.312500 0.208333'' @ [CHR 0x0A])"
proof -
  have cm: "class_mapping ''D00'' = Some 0"
    by (simp add: class_mapping_def)
  have ev: "parse_document (example_doc ''D00'') = Inr [example_box 0]"
    using cm by (rule parse_example_doc)
  have kept: "filter retained (objects (example_doc ''D00'')) = [example_object ''D00'']"
    by (simp add: example_doc_def retained_def object_class_id_def example_object_def cm)
  have sz: "size_width (example_doc ''D00'') = Value 640"
    "size_height (example_doc ''D00'') = Value 480"
    by (simp_all add: example_doc_def)
  from emitted_box_follows_formulas [of "example_doc ''D00''" "[example_box 0]" "''D00''" 0]
    ev cm kept sz
  show ?thesis by (simp add: show_int_def digit_char_def show_nat.simps)
qed

text \<open>
  C4. The class mapping has exactly the keys D00, D10, D20 and D40, with the
  identifiers 0, 1, 2 and 3. Whenever the parser returns, its boxes correspond one to
  one, in document order, to the objects whose name is a key of the mapping, each
  with the identifier of its name. An object whose name is not a key leaves the
  result of the parser unchanged, be it a box list or an error raised by another
  object.
\<close>

theorem parser_output_is_mapped_objects:
  "dom class_mapping = {''D00'', ''D10'', ''D20'', ''D40''} \<and>
   class_mapping ''D00'' = Some 0 \<and> class_mapping ''D10'' = Some 1 \<and>
   class_mapping ''D20'' = Some 2 \<and> class_mapping ''D40'' = Some 3 \<and>
   (parse_voc_annotation files xml_file = Inr boxes \<longrightarrow>
      (\<exists>doc. files xml_file = Some (File (Annotation doc)) \<and>
         map (\<lambda>b. Some (fst b)) boxes = map object_class_id (filter retained (objects doc)))) \<and>
   (obj_name obj = NameText class_name \<and> class_mapping class_name = None \<longrightarrow>
      parse_objects w h acc (before @ obj # after) = parse_objects w h acc (before @ after))"
proof (intro conjI impI)
  show "dom class_mapping = {''D00'', ''D10'', ''D20'', ''D40''}"
    by (auto simp: class_mapping_def split: if_splits)
next
  assume p: "parse_voc_annotation files xml_file = Inr boxes"
  then obtain doc where f: "files xml_file = Some (File (Annotation doc))"
    and d: "parse_document doc = Inr boxes"
    by (auto simp: parse_voc_annotation_def ET_parse_def bind_result_def
        split: option.splits node.splits content.splits sum.splits)
  from parse_document_boxes [OF d] obtain iw ih where
    "list_all2 (\<lambda>obj b. convert_object iw ih obj = Inr (Some b))
       (filter retained (objects doc)) boxes"
    by blast
  then have "list_all2 (\<lambda>obj b. object_class_id obj = Some (fst b))
       (filter retained (objects doc)) boxes"
    by (rule list_all2_mono) (rule convert_object_class_id)
  then have "map object_class_id (filter retained (objects doc)) = map (\<lambda>b. Some (fst b)) boxes"
    by (induction rule: list_all2_induct) simp_all
  with f show "\<exists>doc. files xml_file = Some (File (Annotation doc)) \<and>
         map (\<lambda>b. Some (fst b)) boxes = map object_class_id (filter retained (objects doc))"
    by auto
next
  assume "obj_name obj = NameText class_name \<and> class_mapping class_name = None"
  then have "convert_object w h obj = Inr None"
    by (simp add: unmapped_is_skipped)
  then show "parse_objects w h acc (before @ obj # after) = parse_objects w h acc (before @ after)"
    by (rule parse_objects_skip)
qed (simp_all add: class_mapping_def)

theorem parser_output_is_mapped_objects_witness:
  "parse_voc_annotation example_files [''xmls'', ''d.xml''] = Inr [example_box 0, example_box 3] \<and>
   (\<exists>doc. example_files [''xmls'', ''d.xml''] = Some (File (Annotation doc)) \<and>
      map (\<lambda>b. Some (fst b)) [example_box 0, example_box 3]
        = map object_class_id (filter retained (objects doc))) \<and>
   obj_name \<lparr>obj_name = NameText ''D30'', obj_bndbox = None\<rparr> = NameText ''D30'' \<and>
   class_mapping ''D30'' = None \<and>
   parse_objects 640 480 []
     ([example_object ''D00''] @ \<lparr>obj_name = NameText ''D30'', obj_bndbox = None\<rparr>
        # [example_object ''D40''])
     = parse_objects 640 480 [] ([example_object ''D00''] @ [example_object ''D40''])"
proof -
  have c0: "class_mapping ''D00'' = Some 0" and c3: "class_mapping ''D40'' = Some 3"
    and cu: "class_mapping ''D30'' = None"
    by (simp_all add: class_mapping_def)
  have u: "convert_object 640 480 \<lparr>obj_name = NameText ''D30'', obj_bndbox = None\<rparr> = Inr None"
    by (simp add: convert_object_def cu)
  have p: "parse_voc_annotation example_files [''xmls'', ''d.xml'']
      = Inr [example_box 0, example_box 3]"
    by (simp add: parse_voc_annotation_def ET_parse_def example_files_def bind_result_def
        parse_document_def mixed_doc_def convert_text_def
        convert_example_object [OF c0] convert_example_object [OF c3] u)
  from parser_output_is_mapped_objects [of example_files "[''xmls'', ''d.xml'']"
      "[example_box 0, example_box 3]" "\<lparr>obj_name = NameText ''D30'', obj_bndbox = None\<rparr>"
      "''D30''" 640 480 "[]" "[example_object ''D00'']" "[example_object ''D40'']"] p cu
  show ?thesis by simp
qed

subsection \<open>The split\<close>

lemma slice_concat: "slice_to xs k @ slice_from xs k = xs"
  by (simp add: slice_to_def slice_from_def)

lemma slice_index_le: "slice_index xs k \<le> length xs"
  by (auto simp: slice_index_def Let_def nat_le_iff)

lemma slice_index_in_range:
  "0 \<le> k \<Longrightarrow> k \<le> int (length xs) \<Longrightarrow> int (slice_index xs k) = k"
  by (simp add: slice_index_def Let_def)

lemma train_count_of_product:
  "train_count_of n val_split = bind_result (split_product n val_split) int_of_float"
  by (simp add: train_count_of_def split_product_def bind_result_def split: sum.splits)

lemma floor_scaled_up: "\<lfloor>rat_of_int m * 2 ^ n\<rfloor> = m * 2 ^ n"
proof -
  have "rat_of_int m * 2 ^ n = of_int (m * 2 ^ n)" by simp
  then show ?thesis by (simp only: floor_of_int)
qed

lemma floor_scaled_down: "\<lfloor>rat_of_int m / 2 ^ n\<rfloor> = m div 2 ^ n"
proof -
  have "rat_of_int m / 2 ^ n = of_int m / of_int (2 ^ n)" by simp
  then show ?thesis by (simp only: floor_divide_of_int_eq)
qed

lemma int_of_float_truncates:
  assumes "int_of_float (Finite s m e) = Inr k" and "0 \<le> m"
  shows "k = truncate (value_of (Finite s m e))"
proof -
  let ?p = "if 0 \<le> e then rat_of_int m * 2 ^ nat e else rat_of_int m / 2 ^ nat (- e)"
  have nonneg: "0 \<le> ?p" using assms(2) by simp
  have fl: "\<lfloor>?p\<rfloor> = (if 0 \<le> e then m * 2 ^ nat e else m div 2 ^ nat (- e))"
    by (simp add: floor_scaled_up floor_scaled_down)
  have k: "k = signed s (if 0 \<le> e then m * 2 ^ nat e else m div 2 ^ nat (- e))"
    using assms(1) by simp
  show ?thesis
  proof (cases s)
    case True
    then have v: "value_of (Finite s m e) = - ?p" by (simp add: signed_def)
    show ?thesis
    proof (cases "?p = 0")
      case z: True
      from v z have v0: "value_of (Finite s m e) = 0" by simp
      from fl z have "(if 0 \<le> e then m * 2 ^ nat e else m div 2 ^ nat (- e)) = 0" by simp
      with k have "k = 0" by (simp add: signed_def)
      then show ?thesis unfolding v0 by (simp add: truncate_def)
    next
      case False
      with nonneg have "- ?p < 0" by simp
      with k fl True show ?thesis unfolding v by (simp add: truncate_def signed_def)
    qed
  next
    case False
    then have v: "value_of (Finite s m e) = ?p" by (simp add: signed_def)
    from nonneg have "\<not> ?p < 0" by simp
    with k fl False show ?thesis unfolding v by (simp add: truncate_def signed_def)
  qed
qed

lemma scale_down_steps:
  "0 < d \<Longrightarrow> 9007199254740992 * d * 2 ^ k \<le> n \<Longrightarrow>
   scale_down n d e = scale_down n (d * 2 ^ Suc k) (e + int (Suc k))"
proof (induction k arbitrary: d e)
  case 0
  then show ?case by (subst scale_down.simps) (simp add: mult.commute)
next
  case (Suc k)
  have "(1::int) \<le> 2 ^ Suc k" by (rule one_le_power) simp
  then have "9007199254740992 * d * 1 \<le> 9007199254740992 * d * 2 ^ Suc k"
    using Suc.prems(1) by (intro mult_left_mono) simp_all
  with Suc.prems(2) have first: "9007199254740992 * d \<le> n" by simp
  have "scale_down n d e = scale_down n (2 * d) (e + 1)"
    using Suc.prems(1) first by (subst scale_down.simps) simp
  also have "\<dots> = scale_down n (2 * d * 2 ^ Suc k) (e + 1 + int (Suc k))"
    using Suc.prems by (intro Suc.IH) (simp_all add: mult.assoc)
  finally show ?case by (simp add: ac_simps)
qed

lemma scale_down_large:
  "scale_down (4503599627370496 + 4503599627370496 * 2 ^ 1023) 1 (- 52)
   = (4503599627370496 + 4503599627370496 * 2 ^ 1023, 2 ^ 1023, 971)"
  by (subst scale_down_steps [where k = 1022]) (simp_all add: scale_down.simps)

lemma round64_large:
  "round64 False (4503599627370496 + 4503599627370496 * 2 ^ 1023) 1 (- 52)
   = Finite False 4503599627370496 971"
  unfolding round64_def scale_down_large
  by (simp add: round_half_even_def Let_def scale_up.simps)

lemma one_minus_large:
  "fsub one64 (Finite True 4503599627370496 971) = Finite False 4503599627370496 971"
proof -
  have "fsub one64 (Finite True 4503599627370496 971)
      = round64 False (4503599627370496 + 4503599627370496 * 2 ^ 1023) 1 (- 52)"
    by (simp add: fsub_def one64_def signed_def Let_def)
  then show ?thesis by (simp only: round64_large)
qed

lemma float_of_int_2: "float_of_int 2 = Inr two64"
  by (simp add: float_eval)

lemma float_of_int_5: "float_of_int 5 = Inr (Finite False 5629499534213120 (- 50))"
  by (simp add: float_eval)

lemma float_of_int_10: "float_of_int 10 = Inr (Finite False 5629499534213120 (- 49))"
  by (simp add: float_eval)

lemma product_5_default:
  "split_product 5 (float_of_ratio 1 5) = Inr (Finite False 4503599627370496 (- 50))"
  by (simp add: split_product_def float_of_int_5 float_eval)

text \<open>
  C3, as amended. \<open>train_count\<close> is the float \<open>N * (1 - val_split)\<close>, computed in
  binary64, truncated toward zero. The training set is the Python slice
  \<open>shuffled[:train_count]\<close>, a prefix, and the validation set \<open>shuffled[train_count:]\<close>,
  the remaining suffix, so that their sizes always add up to \<open>N\<close>; where
  \<open>0 \<le> train_count \<le> N\<close> the training set has \<open>train_count\<close> files and the validation
  set \<open>N - train_count\<close>.
\<close>

theorem split_sizes:
  "train_count_of (length shuffled) val_split = Inr train_count \<longrightarrow>
     (\<exists>s m e. split_product (length shuffled) val_split = Inr (Finite s m e) \<and>
        (0 \<le> m \<longrightarrow> train_count = truncate (value_of (Finite s m e)))) \<and>
     slice_to shuffled train_count = take (slice_index shuffled train_count) shuffled \<and>
     slice_from shuffled train_count = drop (slice_index shuffled train_count) shuffled \<and>
     length (slice_to shuffled train_count) + length (slice_from shuffled train_count)
       = length shuffled \<and>
     (0 \<le> train_count \<and> train_count \<le> int (length shuffled) \<longrightarrow>
        int (length (slice_to shuffled train_count)) = train_count \<and>
        int (length (slice_from shuffled train_count)) = int (length shuffled) - train_count)"
proof (intro impI conjI)
  assume tc: "train_count_of (length shuffled) val_split = Inr train_count"
  then obtain p where p: "split_product (length shuffled) val_split = Inr p"
    and k: "int_of_float p = Inr train_count"
    by (auto simp: train_count_of_product bind_result_def split: sum.splits)
  from k obtain s m e where f: "p = Finite s m e"
    by (cases p) simp_all
  from k f int_of_float_truncates [of s m e train_count]
  have "0 \<le> m \<longrightarrow> train_count = truncate (value_of (Finite s m e))" by simp
  with p f show "\<exists>s m e. split_product (length shuffled) val_split = Inr (Finite s m e) \<and>
        (0 \<le> m \<longrightarrow> train_count = truncate (value_of (Finite s m e)))"
    by blast
next
  show "length (slice_to shuffled train_count) + length (slice_from shuffled train_count)
       = length shuffled"
    using slice_index_le [of shuffled train_count]
    by (simp add: slice_to_def slice_from_def)
next
  assume r: "0 \<le> train_count \<and> train_count \<le> int (length shuffled)"
  then have i: "int (slice_index shuffled train_count) = train_count"
    by (simp add: slice_index_in_range)
  from slice_index_le [of shuffled train_count]
  have "length (slice_to shuffled train_count) = slice_index shuffled train_count"
    by (simp add: slice_to_def)
  with i show "int (length (slice_to shuffled train_count)) = train_count" by simp
  from slice_index_le [of shuffled train_count] i
  show "int (length (slice_from shuffled train_count)) = int (length shuffled) - train_count"
    by (simp add: slice_from_def of_nat_diff)
qed (simp_all add: slice_to_def slice_from_def)

theorem split_sizes_witness:
  "train_count_of (length [[''a.xml''], [''b.xml''], [''c.xml''], [''d.xml''], [''e.xml'']])
     (float_of_ratio 1 5) = Inr 4 \<and>
   split_product 5 (float_of_ratio 1 5) = Inr (Finite False 4503599627370496 (- 50)) \<and>
   (0::int) \<le> 4503599627370496 \<and>
   (4::int) = truncate (value_of (Finite False 4503599627370496 (- 50))) \<and>
   (0::int) \<le> 4 \<and> (4::int) \<le> 5 \<and>
   slice_to [[''a.xml''], [''b.xml''], [''c.xml''], [''d.xml''], [''e.xml'']] 4
     = [[''a.xml''], [''b.xml''], [''c.xml''], [''d.xml'']] \<and>
   slice_from [[''a.xml''], [''b.xml''], [''c.xml''], [''d.xml''], [''e.xml'']] 4 = [[''e.xml'']] \<and>
   int (length (slice_to [[''a.xml''], [''b.xml''], [''c.xml''], [''d.xml''], [''e.xml'']] 4)) = 4 \<and>
   int (length (slice_from [[''a.xml''], [''b.xml''], [''c.xml''], [''d.xml''], [''e.xml'']] 4)) = 1"
proof -
  let ?xs = "[[''a.xml''], [''b.xml''], [''c.xml''], [''d.xml''], [''e.xml'']]"
  have p: "split_product 5 (float_of_ratio 1 5) = Inr (Finite False 4503599627370496 (- 50))"
    by (rule product_5_default)
  have len: "length ?xs = 5" by simp
  have tc5: "train_count_of 5 (float_of_ratio 1 5) = Inr 4"
    by (simp add: train_count_of_product p bind_result_def signed_def)
  have tc: "train_count_of (length ?xs) (float_of_ratio 1 5) = Inr 4"
    by (simp only: len tc5)
  have i: "slice_index ?xs 4 = 4"
    by (simp add: slice_index_def)
  have t: "(4::int) = truncate (value_of (Finite False 4503599627370496 (- 50)))"
    by (simp add: truncate_def signed_def)
  have r: "(0::int) \<le> 4 \<and> 4 \<le> int (length ?xs)" by simp
  from split_sizes [of ?xs "float_of_ratio 1 5" 4] tc r
  have "int (length (slice_to ?xs 4)) = 4 \<and>
      int (length (slice_from ?xs 4)) = int (length ?xs) - 4"
    by blast
  with tc p i t show ?thesis by (simp add: slice_to_def slice_from_def)
qed

theorem split_sizes_counterexample:
  "train_count_of 10 (float_of_ratio 9 10) = Inr 0 \<and> \<lfloor>(10::rat) * (1 - 9 / 10)\<rfloor> = 1"
proof
  have "split_product 10 (float_of_ratio 9 10) = Inr (Finite False 9007199254740990 (- 53))"
    by (simp add: split_product_def float_of_int_10 float_eval)
  then show "train_count_of 10 (float_of_ratio 9 10) = Inr 0"
    by (simp add: train_count_of_product bind_result_def signed_def)
  have "(10::rat) * (1 - 9 / 10) = 1" by simp
  then show "\<lfloor>(10::rat) * (1 - 9 / 10)\<rfloor> = 1" by simp
qed

text \<open>
  C10, as amended. For every integer \<open>train_count\<close>, negative or beyond the length
  included, the training prefix followed by the validation suffix is the shuffled
  list. The program reaches the split, for a list of \<open>N\<close> files, whenever the float
  \<open>N * (1 - val_split)\<close> is finite.
\<close>

theorem split_is_partition:
  "slice_to shuffled k @ slice_from shuffled k = shuffled \<and>
   (split_product (length shuffled) val_split = Inr p \<and> is_finite p \<longrightarrow>
      (\<exists>train_count. train_count_of (length shuffled) val_split = Inr train_count \<and>
         slice_to shuffled train_count @ slice_from shuffled train_count = shuffled))"
proof (intro conjI impI)
  show "slice_to shuffled k @ slice_from shuffled k = shuffled"
    by (rule slice_concat)
next
  assume a: "split_product (length shuffled) val_split = Inr p \<and> is_finite p"
  then obtain s m e where "p = Finite s m e" by (cases p) simp_all
  with a have "\<exists>train_count. train_count_of (length shuffled) val_split = Inr train_count"
    by (simp add: train_count_of_product bind_result_def)
  then show "\<exists>train_count. train_count_of (length shuffled) val_split = Inr train_count \<and>
         slice_to shuffled train_count @ slice_from shuffled train_count = shuffled"
    by (auto simp: slice_concat)
qed

theorem split_is_partition_witness:
  "split_product (length [[''a.xml''], [''b.xml''], [''c.xml''], [''d.xml''], [''e.xml'']])
     (float_of_ratio 1 5) = Inr (Finite False 4503599627370496 (- 50)) \<and>
   is_finite (Finite False 4503599627370496 (- 50)) \<and>
   (\<exists>train_count.
      train_count_of (length [[''a.xml''], [''b.xml''], [''c.xml''], [''d.xml''], [''e.xml'']])
        (float_of_ratio 1 5) = Inr train_count \<and>
      slice_to [[''a.xml''], [''b.xml''], [''c.xml''], [''d.xml''], [''e.xml'']] train_count
        @ slice_from [[''a.xml''], [''b.xml''], [''c.xml''], [''d.xml''], [''e.xml'']] train_count
        = [[''a.xml''], [''b.xml''], [''c.xml''], [''d.xml''], [''e.xml'']])"
proof -
  let ?xs = "[[''a.xml''], [''b.xml''], [''c.xml''], [''d.xml''], [''e.xml'']]"
  have len: "length ?xs = 5" by simp
  have p: "split_product (length ?xs) (float_of_ratio 1 5)
      = Inr (Finite False 4503599627370496 (- 50))"
    by (simp only: len product_5_default)
  have "is_finite (Finite False 4503599627370496 (- 50))" by simp
  with split_is_partition [of ?xs 0 "float_of_ratio 1 5" "Finite False 4503599627370496 (- 50)"] p
  show ?thesis by blast
qed

theorem split_is_partition_counterexample:
  "train_count_of (length [[''a.xml''], [''b.xml'']]) (Finite True 4503599627370496 971)
     = Inl OverflowError"
  by (simp add: train_count_of_def float_of_int_2 bind_result_def one_minus_large two64_def
      round64_def round_half_even_def Let_def scale_down.simps scale_up.simps)

subsection \<open>The label format\<close>

lemma find_image_find:
  "find_image files d n exts =
   map_option (\<lambda>ext. d @ [n @ ext]) (find (\<lambda>ext. exists_path files (d @ [n @ ext])) exts)"
  by (induction exts) (simp_all add: Let_def)

lemma write_boxes_concat: "write_boxes written boxes = written @ concat (map format_box boxes)"
  by (induction boxes arbitrary: written) simp_all

lemma is_digit_digit_char: "is_digit (digit_char d)"
proof -
  have "d mod 10 < length ''0123456789''" by simp
  then have "''0123456789'' ! (d mod 10) \<in> set ''0123456789''" by (rule nth_mem)
  then show ?thesis by (simp only: is_digit_def digit_char_def)
qed

lemma show_nat_digits: "list_all is_digit (show_nat n) \<and> show_nat n \<noteq> []"
proof (induction n rule: show_nat.induct)
  case (1 n)
  show ?case
  proof (cases "n < 10")
    case True
    then have "show_nat n = [digit_char n]" by (subst show_nat.simps) simp
    then show ?thesis by (simp add: is_digit_digit_char)
  next
    case False
    then have eq: "show_nat n = show_nat (n div 10) @ [digit_char n]"
      by (subst show_nat.simps) simp
    from 1 False have "list_all is_digit (show_nat (n div 10))" by blast
    then show ?thesis unfolding eq by (simp add: is_digit_digit_char)
  qed
qed

lemma digits6_digits: "list_all is_digit (digits6 k) \<and> length (digits6 k) = 6"
  by (simp add: digits6_def is_digit_digit_char)

lemma not_digit_dot: "\<not> is_digit CHR ''.''"
  by (simp add: is_digit_def)

lemma not_digit_minus: "\<not> is_digit CHR ''-''"
  by (simp add: is_digit_def)

lemma takeWhile_digits: "list_all is_digit ds \<Longrightarrow> takeWhile is_digit (ds @ CHR ''.'' # r) = ds"
  by (induction ds) (simp_all add: not_digit_dot)

lemma dropWhile_digits:
  "list_all is_digit ds \<Longrightarrow> dropWhile is_digit (ds @ CHR ''.'' # r) = CHR ''.'' # r"
  by (induction ds) (simp_all add: not_digit_dot)

lemma decimal6_unsigned:
  assumes "list_all is_digit ds" "ds \<noteq> []" "list_all is_digit fr" "length fr = 6"
  shows "is_decimal6 (ds @ CHR ''.'' # fr)"
proof -
  from assms(2) obtain a r where ds: "ds = a # r" by (cases ds) auto
  with assms(1) have "is_digit a" by simp
  then have "a \<noteq> CHR ''-''" using not_digit_minus by auto
  then have body: "(case ds @ CHR ''.'' # fr of [] \<Rightarrow> [] | c # cs \<Rightarrow> if c = CHR ''-'' then cs
      else ds @ CHR ''.'' # fr) = ds @ CHR ''.'' # fr"
    by (simp add: ds)
  show ?thesis
    unfolding is_decimal6_def Let_def body
    using assms by (simp only: takeWhile_digits dropWhile_digits) simp
qed

lemma decimal6_signed:
  assumes "list_all is_digit ds" "ds \<noteq> []" "list_all is_digit fr" "length fr = 6"
  shows "is_decimal6 (CHR ''-'' # ds @ CHR ''.'' # fr)"
  using assms by (simp add: is_decimal6_def Let_def takeWhile_digits dropWhile_digits)

lemma digits_no_separator:
  "list_all is_digit ds \<Longrightarrow> CHR '' '' \<notin> set ds \<and> CHR 0x0A \<notin> set ds"
  by (induction ds) (auto simp: is_digit_def)

lemma plain_integer_no_separator:
  assumes "is_plain_integer s"
  shows "CHR '' '' \<notin> set s \<and> CHR 0x0A \<notin> set s"
proof (cases s)
  case Nil
  then show ?thesis by simp
next
  case (Cons c cs)
  show ?thesis
  proof (cases "c = CHR ''-''")
    case True
    with Cons assms have "list_all is_digit cs" by (simp add: is_plain_integer_def)
    from digits_no_separator [OF this] Cons True show ?thesis by simp
  next
    case False
    with Cons assms have "list_all is_digit s" by (simp add: is_plain_integer_def)
    from digits_no_separator [OF this] show ?thesis .
  qed
qed

lemma decimal6_body_no_separator:
  assumes "case dropWhile is_digit b of [] \<Rightarrow> False
    | c # decimals \<Rightarrow> c = CHR ''.'' \<and> length decimals = 6 \<and> list_all is_digit decimals"
  shows "CHR '' '' \<notin> set b \<and> CHR 0x0A \<notin> set b"
proof -
  from assms obtain decimals where d: "dropWhile is_digit b = CHR ''.'' # decimals"
    and dd: "list_all is_digit decimals"
    by (auto split: list.splits)
  have "list_all is_digit (takeWhile is_digit b)"
    by (simp add: list_all_iff) (meson set_takeWhileD)
  from digits_no_separator [OF this] digits_no_separator [OF dd]
  have "CHR '' '' \<notin> set (takeWhile is_digit b @ dropWhile is_digit b) \<and>
        CHR 0x0A \<notin> set (takeWhile is_digit b @ dropWhile is_digit b)"
    unfolding d by simp
  then show ?thesis by simp
qed

lemma decimal6_no_separator:
  assumes "is_decimal6 s"
  shows "CHR '' '' \<notin> set s \<and> CHR 0x0A \<notin> set s"
proof (cases s)
  case Nil
  with assms show ?thesis by (simp add: is_decimal6_def)
next
  case (Cons c cs)
  show ?thesis
  proof (cases "c = CHR ''-''")
    case True
    with Cons assms have "case dropWhile is_digit cs of [] \<Rightarrow> False
      | c # decimals \<Rightarrow> c = CHR ''.'' \<and> length decimals = 6 \<and> list_all is_digit decimals"
      by (simp add: is_decimal6_def Let_def)
    from decimal6_body_no_separator [OF this] Cons True show ?thesis by simp
  next
    case False
    with Cons assms have "case dropWhile is_digit s of [] \<Rightarrow> False
      | c # decimals \<Rightarrow> c = CHR ''.'' \<and> length decimals = 6 \<and> list_all is_digit decimals"
      by (simp add: is_decimal6_def Let_def)
    from decimal6_body_no_separator [OF this] show ?thesis .
  qed
qed

lemma show_int_plain: "is_plain_integer (show_int i)"
proof (cases "i < 0")
  case True
  then show ?thesis
    using show_nat_digits [of "nat (- i)"]
    by (simp add: show_int_def is_plain_integer_def)
next
  case False
  obtain a r where ar: "show_nat (nat i) = a # r"
    using show_nat_digits [of "nat i"] by (cases "show_nat (nat i)") auto
  with show_nat_digits [of "nat i"] have "is_digit a" by simp
  then have "a \<noteq> CHR ''-''" using not_digit_minus by auto
  with False ar show_nat_digits [of "nat i"] show ?thesis
    by (simp add: show_int_def is_plain_integer_def)
qed

lemma format_6f_finite: "is_decimal6 (format_6f (Finite s m e))"
proof -
  define k where "k = nat (if 0 \<le> e then m * 1000000 * 2 ^ nat e
                   else round_half_even (m * 1000000) (2 ^ nat (- e)))"
  have d: "list_all is_digit (show_nat (k div 1000000))" "show_nat (k div 1000000) \<noteq> []"
    "list_all is_digit (digits6 (k mod 1000000))" "length (digits6 (k mod 1000000)) = 6"
    using show_nat_digits [of "k div 1000000"] digits6_digits [of "k mod 1000000"] by simp_all
  have f: "format_6f (Finite s m e) =
      (if s then CHR ''-'' # show_nat (k div 1000000) @ CHR ''.'' # digits6 (k mod 1000000)
       else show_nat (k div 1000000) @ CHR ''.'' # digits6 (k mod 1000000))"
    by (simp add: k_def Let_def)
  show ?thesis
    unfolding f using decimal6_signed [OF d] decimal6_unsigned [OF d] by simp
qed

subsection \<open>The File-Set Processor\<close>

lemma process_set_no_image:
  "find_image files images_dir (fst (splitext (basename xml_file))) image_extensions = None \<Longrightarrow>
   process_set files (xml_file # xml_files) images_dir output_dir
     = process_set files xml_files images_dir output_dir"
  by (simp add: Let_def)

lemma process_set_no_boxes:
  "parse_voc_annotation files xml_file = Inr [] \<Longrightarrow>
   process_set files (xml_file # xml_files) images_dir output_dir
     = process_set files xml_files images_dir output_dir"
  by (simp add: Let_def split: option.splits)

lemma process_set_raises:
  "find_image files images_dir (fst (splitext (basename xml_file))) image_extensions
     = Some image_path \<Longrightarrow>
   parse_voc_annotation files xml_file = Inl err \<Longrightarrow>
   process_set files (xml_file # xml_files) images_dir output_dir = Inl err"
  by (simp add: Let_def)

lemma process_set_writes:
  "find_image files images_dir (fst (splitext (basename xml_file))) image_extensions
     = Some image_path \<Longrightarrow>
   parse_voc_annotation files xml_file = Inr boxes \<Longrightarrow> boxes \<noteq> [] \<Longrightarrow>
   copy files image_path (output_dir @ [basename image_path]) = Inr copied \<Longrightarrow>
   write_file copied (output_dir @ [fst (splitext (basename xml_file)) @ ''.txt''])
     (Other (concat (map format_box boxes))) = Inr written \<Longrightarrow>
   process_set files (xml_file # xml_files) images_dir output_dir
     = process_set written xml_files images_dir output_dir"
  by (simp add: Let_def write_boxes_concat)

lemma unmapped_objects_give_no_box:
  "list_all (\<lambda>obj. obj_name obj \<noteq> NameMissing \<and> \<not> retained obj) objs \<Longrightarrow>
   parse_objects w h acc objs = Inr acc"
proof (induction objs)
  case Nil
  then show ?case by simp
next
  case (Cons obj objs)
  then have "convert_object w h obj = Inr None"
    by (auto simp: convert_object_def retained_def object_class_id_def split: name_node.splits)
  with Cons show ?case by simp
qed

text \<open>
  C5. An annotation whose parsed box list is empty is skipped: the processor goes on
  with the next file on the tree as it was, so that nothing is copied or written for
  the entry and nothing is raised, whether or not its image exists. In particular an
  annotation with the two size fields whose objects all have a name outside the
  mapping has an empty box list.
\<close>

theorem empty_box_list_is_skipped:
  "(parse_voc_annotation files xml_file = Inr [] \<longrightarrow>
      process_set files (xml_file # xml_files) images_dir output_dir
        = process_set files xml_files images_dir output_dir) \<and>
   (files xml_file = Some (File (Annotation doc)) \<and>
    size_width doc = Value w \<and> size_height doc = Value h \<and>
    list_all (\<lambda>obj. obj_name obj \<noteq> NameMissing \<and> \<not> retained obj) (objects doc) \<longrightarrow>
      parse_voc_annotation files xml_file = Inr [])"
proof (intro conjI impI)
  assume "parse_voc_annotation files xml_file = Inr []"
  then show "process_set files (xml_file # xml_files) images_dir output_dir
        = process_set files xml_files images_dir output_dir"
    by (rule process_set_no_boxes)
next
  assume "files xml_file = Some (File (Annotation doc)) \<and>
    size_width doc = Value w \<and> size_height doc = Value h \<and>
    list_all (\<lambda>obj. obj_name obj \<noteq> NameMissing \<and> \<not> retained obj) (objects doc)"
  then show "parse_voc_annotation files xml_file = Inr []"
    by (simp add: parse_voc_annotation_def ET_parse_def bind_result_def
        parse_document_def convert_text_def unmapped_objects_give_no_box)
qed

theorem empty_box_list_is_skipped_witness:
  "example_files [''xmls'', ''b.xml''] = Some (File (Annotation unmapped_doc)) \<and>
   size_width unmapped_doc = Value 640 \<and> size_height unmapped_doc = Value 480 \<and>
   list_all (\<lambda>obj. obj_name obj \<noteq> NameMissing \<and> \<not> retained obj) (objects unmapped_doc) \<and>
   parse_voc_annotation example_files [''xmls'', ''b.xml''] = Inr [] \<and>
   find_image example_files [''images''] (fst (splitext (basename [''xmls'', ''b.xml''])))
     image_extensions = Some [''images'', ''b.png''] \<and>
   process_set example_files [[''xmls'', ''b.xml'']] [''images''] [''out''] = Inr example_files"
proof -
  have f: "example_files [''xmls'', ''b.xml''] = Some (File (Annotation unmapped_doc))"
    by (simp add: example_files_def)
  have s: "size_width unmapped_doc = Value 640" "size_height unmapped_doc = Value 480"
    by (simp_all add: unmapped_doc_def)
  have u: "list_all (\<lambda>obj. obj_name obj \<noteq> NameMissing \<and> \<not> retained obj) (objects unmapped_doc)"
    by (simp add: unmapped_doc_def retained_def object_class_id_def class_mapping_def)
  have i: "find_image example_files [''images''] (fst (splitext (basename [''xmls'', ''b.xml''])))
     image_extensions = Some [''images'', ''b.png'']"
    by (simp add: basename_def splitext_def image_extensions_def exists_path_def
        example_files_def)
  from empty_box_list_is_skipped [of example_files "[''xmls'', ''b.xml'']" "[]" "[''images'']"
      "[''out'']" unmapped_doc 640 480] f s u
  have "parse_voc_annotation example_files [''xmls'', ''b.xml''] = Inr [] \<and>
    process_set example_files [[''xmls'', ''b.xml'']] [''images''] [''out'']
      = process_set example_files [] [''images''] [''out'']"
    by blast
  with f s u i show ?thesis by simp
qed



subsection \<open>The orchestrator\<close>

















lemma process_set_append:
  "process_set files (xs @ ys) images_dir output_dir =
   bind_result (process_set files xs images_dir output_dir)
     (\<lambda>files'. process_set files' ys images_dir output_dir)"
proof (induction xs arbitrary: files)
  case Nil
  show ?case by (simp add: bind_result_def)
next
  case (Cons x xs)
  show ?case
  proof (cases "find_image files images_dir (fst (splitext (basename x))) image_extensions")
    case None
    then show ?thesis by (simp add: Cons.IH Let_def)
  next
    case (Some image_path)
    show ?thesis
    proof (cases "parse_voc_annotation files x")
      case (Inl err)
      with Some show ?thesis by (simp add: Let_def bind_result_def)
    next
      case parsed: (Inr boxes)
      show ?thesis
      proof (cases "boxes = []")
        case True
        with Some parsed show ?thesis by (simp add: Cons.IH Let_def)
      next
        case False
        show ?thesis
        proof (cases "copy files image_path (output_dir @ [basename image_path])")
          case (Inl err)
          with Some parsed False show ?thesis by (simp add: Let_def bind_result_def)
        next
          case copied: (Inr copied)
          show ?thesis
          proof (cases "write_file copied (output_dir @ [fst (splitext (basename x)) @ ''.txt''])
              (Other (write_boxes [] boxes))")
            case (Inl err)
            with Some parsed False copied show ?thesis by (simp add: Let_def bind_result_def)
          next
            case (Inr written)
            with Some parsed False copied show ?thesis by (simp add: Cons.IH Let_def)
          qed
        qed
      qed
    qed
  qed
qed

lemma convert_subdirs_append:
  "convert_subdirs env voc_dir model_dir val_split state (xs @ ys) =
   bind_result (convert_subdirs env voc_dir model_dir val_split state xs)
     (\<lambda>state'. convert_subdirs env voc_dir model_dir val_split state' ys)"
  by (induction xs arbitrary: state) (simp_all add: bind_result_def split: sum.splits)










end
